theory Spec2Isabelle
  imports Main "HOL-Library.Sublist"
begin

section \<open>The lint rule \<open>no-trigger-core-import\<close>\<close>

text \<open>
  Source: \<^verbatim>\<open>packages/eslint-plugin/lib/rules/no-trigger-core-import.js\<close>.
  JavaScript exceptions are values of \<open>error\<close>; a function that may throw returns
  \<open>error + 'a\<close> with \<open>Inl\<close> the exception. JavaScript strings are \<open>string\<close>.
\<close>

datatype error = TypeError | ENOENT | EISDIR | SyntaxError | ConfigError

subsection \<open>Node's \<open>path\<close> module (POSIX flavour)\<close>

text \<open>
  \<open>path.resolve\<close>, \<open>path.join\<close> and \<open>path.dirname\<close> belong to the platform; they are modelled
  after Node's POSIX implementation: \<open>normalizeString\<close> drops empty and \<open>.\<close> segments and
  resolves \<open>..\<close> against the preceding segment.
\<close>

definition slash :: char where
  "slash = CHR ''/''"

fun split_slash :: "string \<Rightarrow> string list" where
  "split_slash [] = [] # []"
| "split_slash (c # cs) =
     (if c = slash then [] # split_slash cs
      else (case split_slash cs of [] \<Rightarrow> [c] # [] | s # ss \<Rightarrow> (c # s) # ss))"

fun norm_segs :: "bool \<Rightarrow> string list \<Rightarrow> string list \<Rightarrow> string list" where
  "norm_segs allowAboveRoot acc [] = rev acc"
| "norm_segs allowAboveRoot acc (s # ss) =
     (if s = [] \<or> s = ''.'' then norm_segs allowAboveRoot acc ss
      else if s = ''..'' then
        (case acc of
           [] \<Rightarrow> norm_segs allowAboveRoot (if allowAboveRoot then [''..''] else []) ss
         | a # as \<Rightarrow>
             if a = ''..'' then norm_segs allowAboveRoot (''..'' # acc) ss
             else norm_segs allowAboveRoot as ss)
      else norm_segs allowAboveRoot (s # acc) ss)"

fun join_with :: "string \<Rightarrow> string list \<Rightarrow> string" where
  "join_with sep [] = []"
| "join_with sep [x] = x"
| "join_with sep (x # y # ys) = x @ sep @ join_with sep (y # ys)"

definition normalizeString :: "string \<Rightarrow> bool \<Rightarrow> string" where
  "normalizeString p allowAboveRoot =
     join_with [slash] (norm_segs allowAboveRoot [] (split_slash p))"

definition isAbsolute :: "string \<Rightarrow> bool" where
  "isAbsolute p = (case p of [] \<Rightarrow> False | c # _ \<Rightarrow> c = slash)"

text \<open>\<open>path.resolve\<close>: the arguments are taken right to left, then the working directory,
  until an absolute path has been built; empty arguments are skipped.\<close>

fun resolve_args :: "string list \<Rightarrow> string \<Rightarrow> string" where
  "resolve_args [] resolvedPath = resolvedPath"
| "resolve_args (p # ps) resolvedPath =
     (if p = [] then resolve_args ps resolvedPath
      else if isAbsolute p then p @ [slash] @ resolvedPath
      else resolve_args ps (p @ [slash] @ resolvedPath))"

definition path_resolve :: "string \<Rightarrow> string list \<Rightarrow> string" where
  "path_resolve cwd args =
     (let resolvedPath = resolve_args (rev args @ [cwd]) [] in
      if isAbsolute resolvedPath then slash # normalizeString resolvedPath False
      else (let r = normalizeString resolvedPath True in if r = [] then ''.'' else r))"

definition path_normalize :: "string \<Rightarrow> string" where
  "path_normalize p =
     (if p = [] then ''.''
      else
        (let trailingSeparator = (last p = slash);
             q = normalizeString p (\<not> isAbsolute p)
         in if q = [] then
              (if isAbsolute p then [slash] else if trailingSeparator then ''./'' else ''.'')
            else
              (let q' = (if trailingSeparator then q @ [slash] else q)
               in if isAbsolute p then slash # q' else q')))"

definition path_join :: "string list \<Rightarrow> string" where
  "path_join args =
     (let joined = join_with [slash] (filter (\<lambda>a. a \<noteq> []) args) in
      if joined = [] then ''.'' else path_normalize joined)"

definition path_dirname :: "string \<Rightarrow> string" where
  "path_dirname p =
     (case p of
        [] \<Rightarrow> ''.''
      | c # body \<Rightarrow>
          (let hasRoot = (c = slash);
               r = dropWhile (\<lambda>x. x \<noteq> slash) (dropWhile (\<lambda>x. x = slash) (rev body))
           in if r = [] then (if hasRoot then [slash] else ''.'')
              else if hasRoot \<and> length r = 1 then ''//''
              else c # rev (tl r)))"

subsection \<open>The file system and the parsed modules\<close>

text \<open>
  A file is represented by what \<open>@babel/parser\<close> and \<open>@babel/traverse\<close> make of it: either
  the parser throws, or the traversal meets the file's \<open>ExportNamedDeclaration\<close> and
  \<open>ExportAllDeclaration\<close> nodes in textual order. Of a declaration only what the visitor
  reads is kept: the names of a \<open>VariableDeclaration\<close>'s declarators whose \<open>id\<close> is an
  identifier (a pattern has no \<open>name\<close> and never equals the queried symbol), the name of a
  function or class declaration. Of an \<open>ExportNamedDeclaration\<close> without declaration: the
  \<open>exported.name\<close> of its specifiers and its \<open>source.value\<close> (\<open>None\<close> when \<open>source\<close> is
  \<open>null\<close>, as in \<^verbatim>\<open>export { X };\<close>).
\<close>

datatype declaration_node =
    VariableDeclaration "string list"
  | FunctionDeclaration string
  | ClassDeclaration string
  | OtherDeclaration

datatype export_node =
    ExportNamedDeclaration "declaration_node option" "string list" "string option"
  | ExportAllDeclaration string

datatype parsed = Unparsable | Module "export_node list"

datatype fs_node = Directory | File parsed

text \<open>
  The environment of one lint run: the working directory, the file system (keyed by
  absolute normalised path; no symbolic links), the \<open>matchPath\<close> function that
  \<open>tsconfig-paths\<close> builds from \<open>tsconfig.json\<close> (\<open>None\<close> when \<open>absoluteBaseUrl\<close> or \<open>paths\<close>
  is missing), and the module-level constant \<open>allowedBarrelFiles\<close>.
\<close>

record env =
  cwd :: string
  fs :: "string \<Rightarrow> fs_node option"
  matchPath :: "(string \<Rightarrow> string option) option"
  allowedBarrelFiles :: "string list"

definition existsSync :: "env \<Rightarrow> string \<Rightarrow> bool" where
  "existsSync e p = (fs e p \<noteq> None)"

definition isDirectory :: "env \<Rightarrow> string \<Rightarrow> bool" where
  "isDirectory e p = (fs e p = Some Directory)"

subsection \<open>\<open>getAllowedBarrelFiles\<close>\<close>

definition blockedImportSources :: "string list" where
  "blockedImportSources = [''@trigger.dev/core'', ''@trigger.dev/core/v3'']"

text \<open>\<^verbatim>\<open>key.replace(/^\.\/?/, "")\<close>: a leading dot goes, and a slash right after it.\<close>

definition stripDot :: "string \<Rightarrow> string" where
  "stripDot key =
     (case key of
        [] \<Rightarrow> []
      | a # r \<Rightarrow>
          if a = CHR ''.'' then (case r of [] \<Rightarrow> [] | b # r' \<Rightarrow> if b = slash then r' else r)
          else key)"

text \<open>\<^verbatim>\<open>["@trigger.dev/core", key].filter(Boolean).join("/")\<close>\<close>

definition coreEntry :: "string \<Rightarrow> string" where
  "coreEntry key = join_with [slash] (filter (\<lambda>s. s \<noteq> []) [''@trigger.dev/core'', key])"

fun collectAllowed :: "string list \<Rightarrow> string list" where
  "collectAllowed [] = []"
| "collectAllowed (k # ks) =
     (let key = stripDot k in
      if key = ''package.json'' then collectAllowed ks
      else coreEntry key # collectAllowed ks)"

text \<open>
  The argument is the list of the keys of the manifest's \<open>exports\<close> object, in the order
  \<^verbatim>\<open>for (let key in exports)\<close> yields them. \<open>exports.hasOwnProperty(key)\<close> is true of each
  of them; when the object has a key \<open>hasOwnProperty\<close> of its own, that key shadows the
  method with a JSON value, and the call throws.
\<close>

definition getAllowedBarrelFiles :: "string list \<Rightarrow> error + string list" where
  "getAllowedBarrelFiles keys =
     (if ''hasOwnProperty'' \<in> set keys then Inl TypeError
      else Inr (filter (\<lambda>file. file \<notin> set blockedImportSources) (collectAllowed keys)))"

subsection \<open>\<open>pathToCorePath\<close>\<close>

text \<open>\<open>String.prototype.split\<close> with a non-empty separator.\<close>

fun split_acc :: "string \<Rightarrow> string \<Rightarrow> string \<Rightarrow> string list" where
  "split_acc sep acc [] = [rev acc]"
| "split_acc sep acc (c # cs) =
     (if prefix sep (c # cs) then rev acc # split_acc sep [] (drop (length sep - 1) cs)
      else split_acc sep (c # acc) cs)"

definition backslash :: char where
  "backslash = CHR 0x5C"

text \<open>Element \<open>[1]\<close> of the split is \<open>undefined\<close> when the marker does not occur, and
  \<open>.replace\<close> on it throws.\<close>

definition pathToCorePath :: "string \<Rightarrow> error + string" where
  "pathToCorePath filePath =
     (case split_acc ''packages/core/src/'' [] filePath of
        _ # relativePath # _ \<Rightarrow>
          Inr (''@trigger.dev/core'' @ [slash] @
               map (\<lambda>c. if c = backslash then slash else c) relativePath)
      | _ \<Rightarrow> Inl TypeError)"

subsection \<open>\<open>tryResolveSourcePath\<close>\<close>

definition possibleExtensions :: "string list" where
  "possibleExtensions = ['''', ''.ts'', ''.tsx'', ''.js'', ''.jsx'']"

definition possibleIndexFiles :: "string list" where
  "possibleIndexFiles = [''index.ts'', ''index.tsx'', ''index.js'', ''index.jsx'']"

definition tryResolveSourcePath :: "env \<Rightarrow> string \<Rightarrow> string \<Rightarrow> string option" where
  "tryResolveSourcePath e baseDir sourcePath =
     (case find (existsSync e)
             (map (\<lambda>ext. path_resolve (cwd e) [baseDir, sourcePath @ ext]) possibleExtensions) of
        Some fullPath \<Rightarrow> Some fullPath
      | None \<Rightarrow>
          (let dirPath = path_resolve (cwd e) [baseDir, sourcePath] in
           if existsSync e dirPath \<and> isDirectory e dirPath then
             find (existsSync e) (map (\<lambda>indexFile. path_join [dirPath, indexFile]) possibleIndexFiles)
           else None))"

subsection \<open>\<open>resolveModulePath\<close>\<close>

text \<open>JavaScript truthiness of a value that is a string or \<open>null\<close>/\<open>undefined\<close>.\<close>

definition truthy :: "string option \<Rightarrow> bool" where
  "truthy v = (case v of None \<Rightarrow> False | Some s \<Rightarrow> s \<noteq> [])"

definition resolveModulePath :: "env \<Rightarrow> string \<Rightarrow> error + string" where
  "resolveModulePath e sourcePath =
     (case matchPath e of
        None \<Rightarrow> Inl ConfigError
      | Some mp \<Rightarrow>
          (let resolvedPath = mp sourcePath in
           if truthy resolvedPath then
             (let rp = the resolvedPath;
                  indexResolvedPath = path_join [rp, ''index.ts''];
                  rp' = (if existsSync e rp \<and> isDirectory e rp \<and> existsSync e indexResolvedPath
                         then indexResolvedPath else rp)
              in Inr (path_resolve (cwd e) [rp']))
           else Inr (path_resolve (cwd e) [sourcePath])))"

subsection \<open>\<open>resolveExport\<close>\<close>

text \<open>
  The traversal's mutable state: the closure variable \<open>barrelFile\<close> of \<open>resolveSpecifier\<close>
  (\<open>None\<close> is \<open>undefined\<close>), and a ghost list \<open>visited\<close> of the files whose allow-list check
  has run, in order; the code never reads it.
\<close>

record walk =
  barrelFile :: "string option"
  visited :: "string list"

text \<open>
  A call of \<open>resolveExport\<close> either runs out of fuel (\<open>None\<close>: the recursion is deeper than
  the fuel given), throws (\<open>Some (Inl e)\<close>), or returns a path or \<open>null\<close> together with
  the state it leaves (\<open>Some (Inr (r, w))\<close>).
\<close>

type_synonym outcome = "(error + string option \<times> walk) option"

text \<open>Lines 67--71: every allow-list entry is tested, and every match is assigned.\<close>

fun assignBarrel :: "string list \<Rightarrow> string \<Rightarrow> string option \<Rightarrow> error + string option" where
  "assignBarrel [] filePath b = Inr b"
| "assignBarrel (allowedBarrelFile # rest) filePath b =
     (case pathToCorePath filePath of
        Inl err \<Rightarrow> Inl err
      | Inr corePath \<Rightarrow>
          assignBarrel rest filePath
            (if prefix allowedBarrelFile corePath then Some allowedBarrelFile else b))"

definition markBarrel :: "env \<Rightarrow> string \<Rightarrow> walk \<Rightarrow> error + walk" where
  "markBarrel e filePath w =
     (case assignBarrel (allowedBarrelFiles e) filePath (barrelFile w) of
        Inl err \<Rightarrow> Inl err
      | Inr b \<Rightarrow> Inr \<lparr>barrelFile = b, visited = visited w @ [filePath]\<rparr>)"

fun declares :: "declaration_node \<Rightarrow> string \<Rightarrow> bool" where
  "declares (VariableDeclaration names) specifier = (specifier \<in> set names)"
| "declares (FunctionDeclaration name) specifier = (name = specifier)"
| "declares (ClassDeclaration name) specifier = (name = specifier)"
| "declares OtherDeclaration specifier = False"

text \<open>
  Lines 105--121, the loop over \<open>node.specifiers\<close>. \<open>recur\<close> is the recursive call
  \<open>resolveExport(_, specifier)\<close>. The result is the value of \<open>foundPath\<close> after the loop.
\<close>

fun visitSpecifiers ::
  "(string \<Rightarrow> walk \<Rightarrow> outcome) \<Rightarrow> env \<Rightarrow> string \<Rightarrow> string \<Rightarrow> string option \<Rightarrow>
   string list \<Rightarrow> string option \<Rightarrow> walk \<Rightarrow> outcome" where
  "visitSpecifiers recur e dir specifier source [] foundPath w = Some (Inr (foundPath, w))"
| "visitSpecifiers recur e dir specifier source (exported # rest) foundPath w =
     (if exported = specifier then
        (case source of
           None \<Rightarrow> Some (Inl TypeError)
         | Some sourcePath \<Rightarrow>
             (let resolvedSourcePath = tryResolveSourcePath e dir sourcePath in
              if truthy resolvedSourcePath then
                (case recur (the resolvedSourcePath) w of
                   None \<Rightarrow> None
                 | Some (Inl err) \<Rightarrow> Some (Inl err)
                 | Some (Inr (resolvedExport, w')) \<Rightarrow>
                     if truthy resolvedExport then Some (Inr (resolvedExport, w'))
                     else visitSpecifiers recur e dir specifier source rest foundPath w')
              else visitSpecifiers recur e dir specifier source rest foundPath w))
      else visitSpecifiers recur e dir specifier source rest foundPath w)"

text \<open>
  Lines 78--136, \<open>traverse(ast, visitor)\<close>: the visitor runs on every export node in
  textual order. A \<open>return\<close> in a visitor ends that visit only; nothing stops the
  traversal.
\<close>

fun traverse ::
  "(string \<Rightarrow> walk \<Rightarrow> outcome) \<Rightarrow> env \<Rightarrow> string \<Rightarrow> string \<Rightarrow> string \<Rightarrow>
   export_node list \<Rightarrow> string option \<Rightarrow> walk \<Rightarrow> outcome" where
  "traverse recur e dir filePath specifier [] foundPath w = Some (Inr (foundPath, w))"
| "traverse recur e dir filePath specifier (ExportNamedDeclaration (Some d) exported source # rest)
      foundPath w =
     traverse recur e dir filePath specifier rest
       (if declares d specifier then Some filePath else foundPath) w"
| "traverse recur e dir filePath specifier (ExportNamedDeclaration None exported source # rest)
      foundPath w =
     (case visitSpecifiers recur e dir specifier source exported foundPath w of
        None \<Rightarrow> None
      | Some (Inl err) \<Rightarrow> Some (Inl err)
      | Some (Inr (foundPath', w')) \<Rightarrow>
          traverse recur e dir filePath specifier rest foundPath' w')"
| "traverse recur e dir filePath specifier (ExportAllDeclaration sourcePath # rest) foundPath w =
     (let resolvedSourcePath = tryResolveSourcePath e dir sourcePath in
      if truthy resolvedSourcePath then
        (case recur (the resolvedSourcePath) w of
           None \<Rightarrow> None
         | Some (Inl err) \<Rightarrow> Some (Inl err)
         | Some (Inr (resolvedExport, w')) \<Rightarrow>
             traverse recur e dir filePath specifier rest
               (if truthy resolvedExport then resolvedExport else foundPath) w')
      else traverse recur e dir filePath specifier rest foundPath w)"

text \<open>
  Lines 59--139. \<open>fs.lstatSync\<close> throws on a path that does not exist;
  \<open>fs.readFileSync\<close> throws on a directory; \<open>parser.parse\<close> throws on a file it cannot
  parse. The fuel bounds the depth of the recursion.
\<close>

primrec resolveExport :: "nat \<Rightarrow> env \<Rightarrow> string \<Rightarrow> string \<Rightarrow> walk \<Rightarrow> outcome" where
  "resolveExport 0 e specifier fileOrDir w = None"
| "resolveExport (Suc n) e specifier fileOrDir w =
     (case fs e fileOrDir of
        None \<Rightarrow> Some (Inl ENOENT)
      | Some stat \<Rightarrow>
          (let filePath = (if stat = Directory then path_join [fileOrDir, ''index.ts''] else fileOrDir);
               dir = (if stat = Directory then fileOrDir else path_dirname fileOrDir)
           in if \<not> existsSync e filePath then Some (Inr (None, w))
              else
                (case markBarrel e filePath w of
                   Inl err \<Rightarrow> Some (Inl err)
                 | Inr w1 \<Rightarrow>
                     (case fs e filePath of
                        Some (File (Module ast)) \<Rightarrow>
                          (case traverse (resolveExport n e specifier) e dir filePath specifier
                                  ast None w1 of
                             None \<Rightarrow> None
                           | Some (Inl err) \<Rightarrow> Some (Inl err)
                           | Some (Inr (foundPath, w2)) \<Rightarrow>
                               Some (Inr (if truthy foundPath then foundPath else None, w2)))
                      | Some (File Unparsable) \<Rightarrow> Some (Inl SyntaxError)
                      | _ \<Rightarrow> Some (Inl EISDIR)))))"

subsection \<open>\<open>resolveSpecifier\<close>\<close>

text \<open>
  \<open>resolveSpecifier_walk\<close> is lines 49--53: it returns what \<open>resolveExport\<close> returned and
  the state it left. \<open>resolveSpecifier\<close> is the whole function: \<open>barrelFile\<close> when the
  walker returned a path, \<open>null\<close> otherwise. \<open>None\<close> stands for both \<open>null\<close> and an
  \<open>undefined\<close> \<open>barrelFile\<close>: the caller only tests the result's truthiness.
\<close>

definition resolveSpecifier_walk :: "nat \<Rightarrow> env \<Rightarrow> string \<Rightarrow> string \<Rightarrow> outcome" where
  "resolveSpecifier_walk n e importSource specifier =
     (case resolveModulePath e importSource of
        Inl err \<Rightarrow> Some (Inl err)
      | Inr corePath \<Rightarrow>
          resolveExport n e specifier (path_dirname corePath) \<lparr>barrelFile = None, visited = []\<rparr>)"

definition resolveSpecifier ::
  "nat \<Rightarrow> env \<Rightarrow> string \<Rightarrow> string \<Rightarrow> (error + string option) option" where
  "resolveSpecifier n e importSource specifier =
     (case resolveSpecifier_walk n e importSource specifier of
        None \<Rightarrow> None
      | Some (Inl err) \<Rightarrow> Some (Inl err)
      | Some (Inr (resolvedPath, w)) \<Rightarrow>
          Some (Inr (if truthy resolvedPath then barrelFile w else None)))"

subsection \<open>The rule: the \<open>ImportDeclaration\<close> visitor\<close>

text \<open>
  An import specifier as ESLint hands it over: \<open>imported.name\<close>, \<open>local.name\<close> and the
  source text \<open>context.getSourceCode().getText(specifier)\<close>. A default or namespace
  specifier has no \<open>imported\<close>, and \<open>specifier.imported.name\<close> throws on it.
\<close>

datatype import_specifier =
    ImportSpecifier string string string
  | ImportDefaultSpecifier string string
  | ImportNamespaceSpecifier string string

record import_declaration =
  source_value :: string
  specifiers :: "import_specifier list"

record specifier_fix =
  original :: string
  path :: string

record report =
  messageId :: string
  data :: "(string \<times> string) list"
  fix_replaceText :: "string option"

definition local_name :: "import_specifier \<Rightarrow> string" where
  "local_name s =
     (case s of ImportSpecifier i l t \<Rightarrow> l | ImportDefaultSpecifier l t \<Rightarrow> l
      | ImportNamespaceSpecifier l t \<Rightarrow> l)"

definition squote :: char where
  "squote = CHR 0x27"

definition newline :: char where
  "newline = CHR 0x0A"

text \<open>Lines 222--234: \<open>map\<close> over the specifiers, then \<open>filter(Boolean)\<close>.\<close>

fun specifierFixes ::
  "nat \<Rightarrow> env \<Rightarrow> string \<Rightarrow> import_specifier list \<Rightarrow> (error + specifier_fix list) option" where
  "specifierFixes n e importSource [] = Some (Inr [])"
| "specifierFixes n e importSource (ImportSpecifier imported l text # rest) =
     (case resolveSpecifier n e importSource imported of
        None \<Rightarrow> None
      | Some (Inl err) \<Rightarrow> Some (Inl err)
      | Some (Inr resolvedPath) \<Rightarrow>
          (case specifierFixes n e importSource rest of
             None \<Rightarrow> None
           | Some (Inl err) \<Rightarrow> Some (Inl err)
           | Some (Inr fixes) \<Rightarrow>
               Some (Inr (if truthy resolvedPath
                          then \<lparr>original = text, path = the resolvedPath\<rparr> # fixes
                          else fixes))))"
| "specifierFixes n e importSource (_ # rest) = Some (Inl TypeError)"

text \<open>Line 239.\<close>

definition importText :: "specifier_fix \<Rightarrow> string" where
  "importText f =
     ''import { '' @ original f @ '' } from '' @ [squote] @ path f @ [squote] @ '';''"

text \<open>\<open>Array.from(new Set(xs))\<close> keeps the first occurrence of each element.\<close>

definition uniq :: "string list \<Rightarrow> string list" where
  "uniq xs = rev (remdups (rev xs))"

text \<open>
  Lines 218--265. The result is \<open>None\<close> when the fuel does not suffice, an exception, or
  the report passed to \<open>context.report\<close> (\<open>None\<close>: nothing is reported).
\<close>

definition ImportDeclaration ::
  "nat \<Rightarrow> env \<Rightarrow> import_declaration \<Rightarrow> (error + report option) option" where
  "ImportDeclaration n e node =
     (let importSource = source_value node in
      if importSource \<in> set blockedImportSources then
        (case specifierFixes n e importSource (specifiers node) of
           None \<Rightarrow> None
         | Some (Inl err) \<Rightarrow> Some (Inl err)
         | Some (Inr fixes) \<Rightarrow>
             if fixes \<noteq> [] then
               Some (Inr (Some
                 \<lparr>messageId = ''noTriggerCoreImportFixable'',
                  data = [(''importSource'', importSource),
                          (''name'', join_with '', '' (map local_name (specifiers node))),
                          (''resolvedPath'', join_with '', '' (uniq (map path fixes)))],
                  fix_replaceText = Some (join_with [newline] (map importText fixes))\<rparr>))
             else
               Some (Inr (Some
                 \<lparr>messageId = ''noTriggerCoreImport'',
                  data = [(''importSource'', importSource)],
                  fix_replaceText = None\<rparr>)))
      else Some (Inr None))"

section \<open>The GitHub task wrappers\<close>

text \<open>
  Source: \<^verbatim>\<open>src/unnamed/part_000\<close>. \<open>onError\<close> takes a value of type \<open>unknown\<close>: any
  JavaScript value. Objects are lists of own properties; numbers are the integer-valued
  ones (a status code is one; no other number is \<open>=== 403\<close>).
\<close>

datatype jsval =
    JUndefined
  | JNull
  | JBoolean bool
  | JNumber int
  | JString string
  | JObject "(string \<times> jsval) list"

fun js_truthy :: "jsval \<Rightarrow> bool" where
  "js_truthy JUndefined = False"
| "js_truthy JNull = False"
| "js_truthy (JBoolean b) = b"
| "js_truthy (JNumber k) = (k \<noteq> 0)"
| "js_truthy (JString s) = (s \<noteq> [])"
| "js_truthy (JObject ps) = True"

text \<open>Property access \<open>v[k]\<close>: it throws on \<open>undefined\<close> and \<open>null\<close>, and yields \<open>undefined\<close>
  for a property that is not there.\<close>

fun getProp :: "jsval \<Rightarrow> string \<Rightarrow> error + jsval" where
  "getProp JUndefined k = Inl TypeError"
| "getProp JNull k = Inl TypeError"
| "getProp (JObject ps) k = Inr (case map_of ps k of None \<Rightarrow> JUndefined | Some v \<Rightarrow> v)"
| "getProp v k = Inr JUndefined"

text \<open>Lines 17--19.\<close>

fun isRequestError :: "jsval \<Rightarrow> bool" where
  "isRequestError (JObject ps) = (map_of ps ''status'' \<noteq> None)"
| "isRequestError v = False"

text \<open>
  \<open>new Date(Number(rateLimitReset) * 1000)\<close> (line 32) is arithmetic on the platform's
  floating-point numbers; the model does not compute it. The three operations of the
  platform are parameters: \<open>toNumber v\<close> is \<open>Number(v)\<close>, \<open>times1000 x\<close> is \<open>x * 1000\<close>, and
  \<open>newDate x\<close> is \<open>new Date(x)\<close>, the date whose time value (its epoch milliseconds) is
  \<open>x\<close>. \<open>'n\<close> is the type of numbers and \<open>'d\<close> the type of dates.
\<close>

record ('n, 'd) platform =
  toNumber :: "jsval \<Rightarrow> 'n"
  times1000 :: "'n \<Rightarrow> 'n"
  newDate :: "'n \<Rightarrow> 'd"

record 'd retry =
  retryAt :: 'd
  retry_error :: jsval

text \<open>Lines 21--40. \<open>Inr None\<close> is the result \<open>undefined\<close>.\<close>

definition onError :: "('n, 'd) platform \<Rightarrow> jsval \<Rightarrow> error + 'd retry option" where
  "onError p err =
     (if \<not> isRequestError err then Inr None
      else
        (case getProp err ''status'' of
           Inl x \<Rightarrow> Inl x
         | Inr status \<Rightarrow>
             if status \<noteq> JNumber 403 then Inr None
             else
               (case getProp err ''response'' of
                  Inl x \<Rightarrow> Inl x
                | Inr response \<Rightarrow>
                    if \<not> js_truthy response then Inr None
                    else
                      (case getProp response ''headers'' of
                         Inl x \<Rightarrow> Inl x
                       | Inr headers \<Rightarrow>
                           (case getProp headers ''x-ratelimit-remaining'' of
                              Inl x \<Rightarrow> Inl x
                            | Inr rateLimitRemaining \<Rightarrow>
                                (case getProp headers ''x-ratelimit-reset'' of
                                   Inl x \<Rightarrow> Inl x
                                 | Inr rateLimitReset \<Rightarrow>
                                     if rateLimitRemaining = JString ''0'' \<and> js_truthy rateLimitReset
                                     then
                                       (let resetDate =
                                              newDate p (times1000 p (toNumber p rateLimitReset))
                                        in Inr (Some \<lparr>retryAt = resetDate, retry_error = err\<rparr>))
                                     else Inr None))))))"

text \<open>The exported tasks, each with the \<open>onError\<close> member it is built with.\<close>

definition tasks ::
  "('n, 'd) platform \<Rightarrow> (string \<times> (jsval \<Rightarrow> error + 'd retry option)) list" where
  "tasks p =
     [(''createIssue'', onError p), (''createIssueComment'', onError p),
      (''getRepo'', onError p), (''createIssueCommentWithReaction'', onError p),
      (''addIssueCommentReaction'', onError p), (''updateWebhook'', onError p),
      (''createWebhook'', onError p), (''listWebhooks'', onError p),
      (''updateOrgWebhook'', onError p), (''createOrgWebhook'', onError p),
      (''listOrgWebhooks'', onError p)]"

section \<open>Properties of the traversal's bookkeeping, stated on lists\<close>

text \<open>The allow-list entries that a file's package-relative path starts with, in
  allow-list order; and the last such entry over a sequence of files.\<close>

definition matching :: "string list \<Rightarrow> string \<Rightarrow> string list" where
  "matching allowed filePath =
     (case pathToCorePath filePath of
        Inl err \<Rightarrow> []
      | Inr corePath \<Rightarrow> filter (\<lambda>a. prefix a corePath) allowed)"

definition lastMatch :: "string list \<Rightarrow> string list \<Rightarrow> string option \<Rightarrow> string option" where
  "lastMatch allowed files b =
     (case concat (map (matching allowed) files) of [] \<Rightarrow> b | m # ms \<Rightarrow> Some (last (m # ms)))"

definition extends :: "string list \<Rightarrow> walk \<Rightarrow> walk \<Rightarrow> bool" where
  "extends allowed w w' =
     (\<exists>vs. visited w' = visited w @ vs \<and> barrelFile w' = lastMatch allowed vs (barrelFile w))"

section \<open>Example repositories\<close>

text \<open>A checkout at \<open>/r\<close>, whose \<open>tsconfig.json\<close> maps the two blocked aliases into
  \<open>packages/core/src\<close>; \<open>matchPath\<close> returns a directory that holds an index file.\<close>

definition coreMatchPath :: "string \<Rightarrow> string option" where
  "coreMatchPath s =
     (if s = ''@trigger.dev/core'' then Some ''/r/packages/core/src''
      else if s = ''@trigger.dev/core/v3'' then Some ''/r/packages/core/src/v3''
      else None)"

definition repo :: "string list \<Rightarrow> (string \<times> fs_node) list \<Rightarrow> env" where
  "repo allowed files =
     \<lparr>cwd = ''/r'', fs = map_of files, matchPath = Some coreMatchPath,
      allowedBarrelFiles = allowed\<rparr>"

definition start :: walk where
  "start = \<lparr>barrelFile = None, visited = []\<rparr>"



text \<open>\<^verbatim>\<open>index.ts\<close> is \<^verbatim>\<open>export const X = 1; export * from "./b";\<close> and \<^verbatim>\<open>b.ts\<close> is
  \<^verbatim>\<open>export const X = 2;\<close>.\<close>

definition shadowRepo :: env where
  "shadowRepo =
     repo []
       [(''/r/packages/core/src'', Directory),
        (''/r/packages/core/src/index.ts'',
           File (Module [ExportNamedDeclaration (Some (VariableDeclaration [''X''])) [] None,
                         ExportAllDeclaration ''./b''])),
        (''/r/packages/core/src/b.ts'',
           File (Module [ExportNamedDeclaration (Some (VariableDeclaration [''X''])) [] None]))]"

text \<open>\<^verbatim>\<open>a.ts\<close> is \<^verbatim>\<open>export * from "./b";\<close> and \<^verbatim>\<open>b.ts\<close> is \<^verbatim>\<open>export * from "./a";\<close>.\<close>

definition cycleRepo :: "string list \<Rightarrow> env" where
  "cycleRepo allowed =
     repo allowed
       [(''/r/packages/core/src'', Directory),
        (''/r/packages/core/src/a.ts'', File (Module [ExportAllDeclaration ''./b''])),
        (''/r/packages/core/src/b.ts'', File (Module [ExportAllDeclaration ''./a'']))]"

text \<open>\<^verbatim>\<open>v3/foo.ts\<close> is \<^verbatim>\<open>export const A = 1; export function B() {}\<close>, re-exported by
  \<^verbatim>\<open>v3/index.ts\<close>; the manifest declares \<^verbatim>\<open>./v3/foo\<close>.\<close>

definition pairRepo :: env where
  "pairRepo =
     repo [''@trigger.dev/core/v3/foo'']
       [(''/r/packages/core/src/v3'', Directory),
        (''/r/packages/core/src/v3/index.ts'', File (Module [ExportAllDeclaration ''./foo''])),
        (''/r/packages/core/src/v3/foo.ts'',
           File (Module [ExportNamedDeclaration (Some (VariableDeclaration [''A''])) [] None,
                         ExportNamedDeclaration (Some (FunctionDeclaration ''B'')) [] None]))]"

definition importPair :: import_declaration where
  "importPair =
     \<lparr>source_value = ''@trigger.dev/core/v3'',
      specifiers = [ImportSpecifier ''A'' ''A'' ''A'', ImportSpecifier ''B'' ''C'' ''B as C'']\<rparr>"

text \<open>\<^verbatim>\<open>v3/index.ts\<close> is \<^verbatim>\<open>export * from "./foo"; const X = 1; export { X };\<close> and
  \<^verbatim>\<open>v3/foo.ts\<close> is \<^verbatim>\<open>export const A = 1;\<close>; the manifest declares \<^verbatim>\<open>./v3/foo\<close>.\<close>

definition localExportRepo :: env where
  "localExportRepo =
     repo [''@trigger.dev/core/v3/foo'']
       [(''/r/packages/core/src/v3'', Directory),
        (''/r/packages/core/src/v3/index.ts'',
           File (Module [ExportAllDeclaration ''./foo'',
                         ExportNamedDeclaration None [''X''] None])),
        (''/r/packages/core/src/v3/foo.ts'',
           File (Module [ExportNamedDeclaration (Some (VariableDeclaration [''A''])) [] None]))]"

definition importLocal :: import_declaration where
  "importLocal =
     \<lparr>source_value = ''@trigger.dev/core/v3'',
      specifiers = [ImportSpecifier ''A'' ''A'' ''A'', ImportSpecifier ''X'' ''X'' ''X'']\<rparr>"



text \<open>A manifest that declares \<^verbatim>\<open>./v3/utils/durations\<close> before \<^verbatim>\<open>./v3/utils\<close>, and the
  file \<^verbatim>\<open>v3/utils/durations.ts\<close>.\<close>

definition durationsRepo :: env where
  "durationsRepo =
     repo [''@trigger.dev/core/v3/utils/durations'', ''@trigger.dev/core/v3/utils'']
       [(''/r/packages/core/src/v3/utils/durations.ts'',
           File (Module [ExportNamedDeclaration (Some (FunctionDeclaration ''parse'')) [] None]))]"

text \<open>A directory \<^verbatim>\<open>v3\<close> whose only index file is \<^verbatim>\<open>index.tsx\<close>.\<close>

definition tsxRepo :: env where
  "tsxRepo =
     repo []
       [(''/r/packages/core/src'', Directory),
        (''/r/packages/core/src/v3'', Directory),
        (''/r/packages/core/src/v3/index.tsx'', File (Module []))]"

text \<open>\<^verbatim>\<open>import * as core from "@trigger.dev/core";\<close>\<close>

definition importNamespace :: import_declaration where
  "importNamespace =
     \<lparr>source_value = ''@trigger.dev/core'',
      specifiers = [ImportNamespaceSpecifier ''core'' ''* as core'']\<rparr>"

text \<open>A 403 whose rate-limit headers are \<open>remaining\<close> and \<open>reset\<close>.\<close>

definition rateLimited :: "jsval \<Rightarrow> jsval \<Rightarrow> jsval" where
  "rateLimited remaining reset =
     JObject [(''status'', JNumber 403),
              (''response'', JObject [(''headers'',
                 JObject [(''x-ratelimit-remaining'', remaining),
                          (''x-ratelimit-reset'', reset)])])]"

text \<open>A platform that computes nothing: a number or a date is the expression that
  builds it.\<close>

datatype number_term = NumberOf jsval | Times1000 number_term

datatype date_term = NewDate number_term

definition written :: "(number_term, date_term) platform" where
  "written = \<lparr>toNumber = NumberOf, times1000 = Times1000, newDate = NewDate\<rparr>"

section \<open>The allow-list builder\<close>

lemma set_collectAllowed:
  "set (collectAllowed keys) =
     {coreEntry (stripDot k) | k. k \<in> set keys \<and> stripDot k \<noteq> ''package.json''}"
  by (induction keys) (auto simp: Let_def)

lemma coreEntry_nonempty: "r \<noteq> [] \<Longrightarrow> coreEntry r = ''@trigger.dev/core/'' @ r"
  by (simp add: coreEntry_def slash_def)



text \<open>
  C6, as stated, fails: for the manifest exports \<open>{".": ..., "./v3": ...}\<close> the code does
  not yield the singleton with the \<open>/v3\<close> entry. \<open>blockedImportSources\<close> holds the root alias
  and \<open>@trigger.dev/core/v3\<close>, so both entries are filtered out and the result is empty.
\<close>

theorem getAllowedBarrelFiles_root_v3_counterexample:
  "getAllowedBarrelFiles [''.'', ''./v3''] = Inr []
   \<and> getAllowedBarrelFiles [''.'', ''./v3''] \<noteq> Inr [''@trigger.dev/core/v3'']"
  by (simp add: getAllowedBarrelFiles_def stripDot_def slash_def coreEntry_def
      blockedImportSources_def)

text \<open>
  C6, amended: \<open>getAllowedBarrelFiles\<close> strips a leading \<open>./\<close> (or a lone leading dot) from
  each key of the export map, skips the key that is then \<open>package.json\<close>, joins the
  remainder to \<open>@trigger.dev/core\<close> (an empty remainder gives the root alias itself), and
  excludes the two blocked import sources, the root alias and \<open>@trigger.dev/core/v3\<close>.
  For the exports \<open>.\<close> and \<open>./v3\<close> the result is empty; with \<open>./v3/foo\<close> added it is the
  singleton of \<open>@trigger.dev/core/v3/foo\<close>.
\<close>

theorem getAllowedBarrelFiles_entries:
  assumes "''hasOwnProperty'' \<notin> set keys"
  shows "(\<exists>allowed. getAllowedBarrelFiles keys = Inr allowed
            \<and> set allowed =
                {coreEntry (stripDot k) | k. k \<in> set keys \<and> stripDot k \<noteq> ''package.json''}
                - {''@trigger.dev/core'', ''@trigger.dev/core/v3''})
         \<and> stripDot (''./'' @ r) = r
         \<and> stripDot ''.'' = []
         \<and> coreEntry [] = ''@trigger.dev/core''
         \<and> (r \<noteq> [] \<longrightarrow> coreEntry r = ''@trigger.dev/core/'' @ r)
         \<and> getAllowedBarrelFiles [''.'', ''./v3''] = Inr []
         \<and> getAllowedBarrelFiles [''.'', ''./v3'', ''./v3/foo'']
             = Inr [''@trigger.dev/core/v3/foo'']"
proof -
  have "getAllowedBarrelFiles keys =
          Inr (filter (\<lambda>file. file \<notin> set blockedImportSources) (collectAllowed keys))"
    using assms by (simp add: getAllowedBarrelFiles_def)
  moreover have "set (filter (\<lambda>file. file \<notin> set blockedImportSources) (collectAllowed keys)) =
      {coreEntry (stripDot k) | k. k \<in> set keys \<and> stripDot k \<noteq> ''package.json''}
      - {''@trigger.dev/core'', ''@trigger.dev/core/v3''}"
    by (auto simp: set_collectAllowed blockedImportSources_def)
  ultimately have entries: "\<exists>allowed. getAllowedBarrelFiles keys = Inr allowed
            \<and> set allowed =
                {coreEntry (stripDot k) | k. k \<in> set keys \<and> stripDot k \<noteq> ''package.json''}
                - {''@trigger.dev/core'', ''@trigger.dev/core/v3''}"
    by blast
  have strip: "stripDot (''./'' @ r) = r" "stripDot ''.'' = []"
    by (simp_all add: stripDot_def slash_def)
  have root: "coreEntry [] = ''@trigger.dev/core''"
    by (simp add: coreEntry_def)
  have ex1: "getAllowedBarrelFiles [''.'', ''./v3''] = Inr []"
    by (simp add: getAllowedBarrelFiles_def stripDot_def slash_def coreEntry_def
        blockedImportSources_def)
  have ex2: "getAllowedBarrelFiles [''.'', ''./v3'', ''./v3/foo'']
               = Inr [''@trigger.dev/core/v3/foo'']"
    by (simp add: getAllowedBarrelFiles_def stripDot_def slash_def coreEntry_def
        blockedImportSources_def)
  show ?thesis
    using entries strip root ex1 ex2 coreEntry_nonempty by blast
qed

text \<open>The amended C6 at the manifest exports \<open>./v3/foo\<close> and \<open>./package.json\<close>.\<close>

theorem getAllowedBarrelFiles_entries_witness:
  "''hasOwnProperty'' \<notin> set [''./v3/foo'', ''./package.json'']
   \<and> getAllowedBarrelFiles [''./v3/foo'', ''./package.json''] = Inr [''@trigger.dev/core/v3/foo'']
   \<and> stripDot ''./v3/foo'' = ''v3/foo''
   \<and> coreEntry ''v3/foo'' = ''@trigger.dev/core/v3/foo''"
  using getAllowedBarrelFiles_entries [of "[''./v3/foo'', ''./package.json'']" "''v3/foo''"]
  by (simp add: getAllowedBarrelFiles_def stripDot_def slash_def coreEntry_def
      blockedImportSources_def)

section \<open>The relative specifier resolver\<close>

lemma tryResolveSourcePath_first_loop:
  "tryResolveSourcePath e baseDir sourcePath =
     find (existsSync e)
       (map (\<lambda>ext. path_resolve (cwd e) [baseDir, sourcePath @ ext]) possibleExtensions)"
  by (auto simp: tryResolveSourcePath_def possibleExtensions_def Let_def split: option.splits)

text \<open>
  C8, what the code does where the claim expects the index files to be probed: when the
  specifier resolves to an existing directory, \<open>tryResolveSourcePath\<close> returns the path
  of the directory itself. \<open>fs.existsSync\<close> holds of a directory, so the first loop
  returns at the empty extension and the loop over the index files is never reached.
\<close>

theorem tryResolveSourcePath_directory:
  assumes "isDirectory e (path_resolve (cwd e) [baseDir, sourcePath])"
  shows "tryResolveSourcePath e baseDir sourcePath
           = Some (path_resolve (cwd e) [baseDir, sourcePath])"
  using assms
  by (simp add: tryResolveSourcePath_def possibleExtensions_def existsSync_def isDirectory_def)

text \<open>The directory \<^verbatim>\<open>v3\<close> holds \<^verbatim>\<open>index.tsx\<close>, and the result for \<^verbatim>\<open>./v3\<close> is the
  directory.\<close>

theorem tryResolveSourcePath_directory_witness:
  "isDirectory tsxRepo (path_resolve (cwd tsxRepo) [''/r/packages/core/src'', ''./v3''])
   \<and> existsSync tsxRepo ''/r/packages/core/src/v3/index.tsx''
   \<and> tryResolveSourcePath tsxRepo ''/r/packages/core/src'' ''./v3''
       = Some ''/r/packages/core/src/v3''"
proof -
  have p: "path_resolve (cwd tsxRepo) [''/r/packages/core/src'', ''./v3'']
             = ''/r/packages/core/src/v3''"
    by (simp add: path_resolve_def isAbsolute_def slash_def normalizeString_def
        tsxRepo_def repo_def)
  have d: "isDirectory tsxRepo (path_resolve (cwd tsxRepo) [''/r/packages/core/src'', ''./v3''])"
    unfolding p by (simp add: isDirectory_def tsxRepo_def repo_def)
  have x: "existsSync tsxRepo ''/r/packages/core/src/v3/index.tsx''"
    by (simp add: existsSync_def tsxRepo_def repo_def)
  show ?thesis
    using d x tryResolveSourcePath_directory [OF d] p by simp
qed

section \<open>The rule driver\<close>

text \<open>
  C7, the code at \<^verbatim>\<open>import * as core from "@trigger.dev/core";\<close>: the source is blocked
  and no named specifier resolves, yet nothing is reported: \<open>specifier.imported\<close> is
  \<open>undefined\<close> on a namespace specifier and reading its \<open>name\<close> throws, whatever the file
  system holds.
\<close>

theorem ImportDeclaration_namespace_throws:
  "ImportDeclaration n e importNamespace = Some (Inl TypeError)"
  by (simp add: ImportDeclaration_def importNamespace_def blockedImportSources_def)

section \<open>The error handler of the GitHub tasks\<close>

lemma onError_Some_iff:
  "(onError p err = Inr (Some r)) =
     (\<exists>ps response headers reset.
        err = JObject ps \<and> map_of ps ''status'' = Some (JNumber 403)
        \<and> map_of ps ''response'' = Some response \<and> js_truthy response
        \<and> getProp response ''headers'' = Inr headers
        \<and> getProp headers ''x-ratelimit-remaining'' = Inr (JString ''0'')
        \<and> getProp headers ''x-ratelimit-reset'' = Inr reset \<and> js_truthy reset
        \<and> r = \<lparr>retryAt = newDate p (times1000 p (toNumber p reset)), retry_error = err\<rparr>)"
proof (cases err)
  case (JObject ps)
  show ?thesis
  proof (cases "map_of ps ''status''")
    case None
    with JObject show ?thesis by (simp add: onError_def)
  next
    case (Some st)
    show ?thesis
    proof (cases "map_of ps ''response''")
      case None
      with JObject Some show ?thesis by (simp add: onError_def)
    next
      case resp: (Some response)
      with JObject Some show ?thesis
        by (auto simp: onError_def split: sum.splits)
    qed
  qed
qed (simp_all add: onError_def)

lemma onError_throws_iff:
  "(\<exists>x. onError p err = Inl x) =
     (\<exists>ps response headers.
        err = JObject ps \<and> map_of ps ''status'' = Some (JNumber 403)
        \<and> map_of ps ''response'' = Some response \<and> js_truthy response
        \<and> getProp response ''headers'' = Inr headers
        \<and> (headers = JUndefined \<or> headers = JNull))"
proof (cases err)
  case (JObject ps)
  show ?thesis
  proof (cases "map_of ps ''status''")
    case None
    with JObject show ?thesis by (simp add: onError_def)
  next
    case (Some st)
    show ?thesis
    proof (cases "map_of ps ''response''")
      case None
      with JObject Some show ?thesis by (simp add: onError_def)
    next
      case resp: (Some response)
      show ?thesis
      proof (cases response)
        case JUndefined
        with JObject Some resp show ?thesis by (simp add: onError_def)
      next
        case JNull
        with JObject Some resp show ?thesis by (simp add: onError_def)
      next
        case (JBoolean b)
        with JObject Some resp show ?thesis by (simp add: onError_def)
      next
        case (JNumber k)
        with JObject Some resp show ?thesis by (simp add: onError_def)
      next
        case (JString t)
        with JObject Some resp show ?thesis by (simp add: onError_def)
      next
        case inner: (JObject qs)
        show ?thesis
        proof (cases "map_of qs ''headers''")
          case None
          with JObject Some resp inner show ?thesis by (simp add: onError_def)
        next
          case hs: (Some headers)
          with JObject Some resp inner show ?thesis
            by (cases headers) (simp_all add: onError_def)
        qed
      qed
    qed
  qed
qed (simp_all add: onError_def)

text \<open>
  C10, as stated, fails twice. A reset header that is present with an empty value is
  falsy, and no hint is returned; and a 403 whose truthy response has no \<open>headers\<close>
  makes \<open>onError\<close> throw instead of returning \<open>undefined\<close>.
\<close>

theorem onError_empty_reset_counterexample:
  "map_of [(''x-ratelimit-remaining'', JString ''0''), (''x-ratelimit-reset'', JString [])]
      ''x-ratelimit-reset'' = Some (JString [])
   \<and> onError written (rateLimited (JString ''0'') (JString [])) = Inr None
   \<and> onError written (JObject [(''status'', JNumber 403), (''response'', JObject [])])
       = Inl TypeError"
  by (simp add: onError_def rateLimited_def)

text \<open>
  C10, amended: every task wrapper has the one \<open>onError\<close>. It returns a retry hint if and
  only if the error is an object with a \<open>status\<close> property that is the number 403 and a
  truthy \<open>response\<close> whose \<open>headers\<close> give the string \<open>"0"\<close> for \<open>x-ratelimit-remaining\<close> and
  a truthy value (present and not empty) for \<open>x-ratelimit-reset\<close>; the hint carries the
  error itself, and \<open>retryAt\<close> is the date whose epoch milliseconds are the reset
  header's numeric value times 1000. \<open>onError\<close> throws exactly when such a response has
  no \<open>headers\<close>, and it returns \<open>undefined\<close> in every remaining case.
\<close>

theorem onError_retry_hint:
  "snd ` set (tasks p) = {onError p}
   \<and> ((onError p err = Inr (Some r)) =
        (\<exists>ps response headers reset.
           err = JObject ps \<and> map_of ps ''status'' = Some (JNumber 403)
           \<and> map_of ps ''response'' = Some response \<and> js_truthy response
           \<and> getProp response ''headers'' = Inr headers
           \<and> getProp headers ''x-ratelimit-remaining'' = Inr (JString ''0'')
           \<and> getProp headers ''x-ratelimit-reset'' = Inr reset \<and> js_truthy reset
           \<and> r = \<lparr>retryAt = newDate p (times1000 p (toNumber p reset)), retry_error = err\<rparr>))
   \<and> ((\<exists>x. onError p err = Inl x) =
        (\<exists>ps response headers.
           err = JObject ps \<and> map_of ps ''status'' = Some (JNumber 403)
           \<and> map_of ps ''response'' = Some response \<and> js_truthy response
           \<and> getProp response ''headers'' = Inr headers
           \<and> (headers = JUndefined \<or> headers = JNull)))
   \<and> ((onError p err = Inr None) =
        ((\<forall>h. onError p err \<noteq> Inr (Some h)) \<and> (\<forall>x. onError p err \<noteq> Inl x)))"
proof -
  have t: "snd ` set (tasks p) = {onError p}"
    by (simp add: tasks_def)
  have other: "(onError p err = Inr None) =
      ((\<forall>h. onError p err \<noteq> Inr (Some h)) \<and> (\<forall>x. onError p err \<noteq> Inl x))"
    by (cases "onError p err") auto
  show ?thesis
    using t other onError_Some_iff [of p err r] onError_throws_iff [of p err]
    by blast
qed

text \<open>The amended C10 at a rate-limited 403 whose reset header is \<open>1700000000\<close>: the date
  is \<open>new Date(Number("1700000000") * 1000)\<close>.\<close>

theorem onError_retry_hint_witness:
  "onError written (rateLimited (JString ''0'') (JString ''1700000000''))
     = Inr (Some \<lparr>retryAt = NewDate (Times1000 (NumberOf (JString ''1700000000''))),
                  retry_error = rateLimited (JString ''0'') (JString ''1700000000'')\<rparr>)"
  using onError_retry_hint
    [of written "rateLimited (JString ''0'') (JString ''1700000000'')"
        "\<lparr>retryAt = NewDate (Times1000 (NumberOf (JString ''1700000000''))),
          retry_error = rateLimited (JString ''0'') (JString ''1700000000'')\<rparr>"]
  by (simp add: rateLimited_def written_def)

section \<open>The export graph walker: what the traversal records\<close>

lemma assignBarrel_filter:
  "pathToCorePath filePath = Inr corePath \<Longrightarrow>
     assignBarrel allowed filePath b =
       Inr (case filter (\<lambda>a. prefix a corePath) allowed of
              [] \<Rightarrow> b | m # ms \<Rightarrow> Some (last (m # ms)))"
proof (induction allowed arbitrary: b)
  case Nil
  then show ?case by simp
next
  case (Cons a allowed)
  then show ?case
    by (cases "filter (\<lambda>a. prefix a corePath) allowed") simp_all
qed

lemma assignBarrel_lastMatch:
  assumes "assignBarrel allowed filePath b = Inr b'"
  shows "b' = lastMatch allowed [filePath] b"
proof (cases "pathToCorePath filePath")
  case (Inl err)
  with assms have "allowed = []" by (cases allowed) simp_all
  with assms Inl show ?thesis by (simp add: lastMatch_def matching_def)
next
  case (Inr corePath)
  from assignBarrel_filter [OF Inr, of allowed b] assms Inr show ?thesis
    by (simp add: lastMatch_def matching_def)
qed

lemma last_or_append:
  "(case xs @ ys of [] \<Rightarrow> b | m # ms \<Rightarrow> Some (last (m # ms))) =
     (case ys of
        [] \<Rightarrow> (case xs of [] \<Rightarrow> b | m # ms \<Rightarrow> Some (last (m # ms)))
      | m # ms \<Rightarrow> Some (last (m # ms)))"
proof (cases ys)
  case Nil
  then show ?thesis by simp
next
  case (Cons y ys')
  then show ?thesis by (cases xs) simp_all
qed

lemma lastMatch_append:
  "lastMatch allowed (xs @ ys) b = lastMatch allowed ys (lastMatch allowed xs b)"
  unfolding lastMatch_def map_append concat_append by (rule last_or_append)

lemma extends_refl: "extends allowed w w"
  unfolding extends_def by (rule exI [of _ "[]"]) (simp add: lastMatch_def)

lemma extends_trans:
  assumes "extends allowed w1 w2" and "extends allowed w2 w3"
  shows "extends allowed w1 w3"
proof -
  from assms(1) obtain xs where xs: "visited w2 = visited w1 @ xs"
    "barrelFile w2 = lastMatch allowed xs (barrelFile w1)"
    unfolding extends_def by blast
  from assms(2) obtain ys where ys: "visited w3 = visited w2 @ ys"
    "barrelFile w3 = lastMatch allowed ys (barrelFile w2)"
    unfolding extends_def by blast
  have "visited w3 = visited w1 @ (xs @ ys)"
    using xs ys by simp
  moreover have "barrelFile w3 = lastMatch allowed (xs @ ys) (barrelFile w1)"
    using xs ys by (simp add: lastMatch_append)
  ultimately show ?thesis unfolding extends_def by blast
qed

lemma markBarrel_extends:
  assumes "markBarrel e filePath w = Inr w'"
  shows "extends (allowedBarrelFiles e) w w'"
proof -
  from assms obtain b where b: "assignBarrel (allowedBarrelFiles e) filePath (barrelFile w) = Inr b"
    and w': "w' = \<lparr>barrelFile = b, visited = visited w @ [filePath]\<rparr>"
    by (auto simp: markBarrel_def split: sum.splits)
  from assignBarrel_lastMatch [OF b] w' show ?thesis
    unfolding extends_def by (intro exI [of _ "[filePath]"]) simp
qed

lemma visitSpecifiers_extends:
  assumes recur: "\<And>p w r w'. recur p w = Some (Inr (r, w')) \<Longrightarrow> extends allowed w w'"
  shows "visitSpecifiers recur e dir specifier source exported foundPath w = Some (Inr (r, w'))
           \<Longrightarrow> extends allowed w w'"
proof (induction exported arbitrary: w)
  case Nil
  then show ?case by (simp add: extends_refl)
next
  case (Cons x exported)
  show ?case
  proof (cases "x = specifier \<and> truthy (tryResolveSourcePath e dir (the source)) \<and> source \<noteq> None")
    case False
    with Cons.prems have "visitSpecifiers recur e dir specifier source exported foundPath w
        = Some (Inr (r, w'))"
      by (auto simp: Let_def split: option.splits if_splits)
    then show ?thesis by (rule Cons.IH)
  next
    case True
    then obtain sourcePath where src: "source = Some sourcePath" by auto
    from True src Cons.prems obtain q w1 where
      call: "recur (the (tryResolveSourcePath e dir sourcePath)) w = Some (Inr (q, w1))"
      and rest: "(truthy q \<and> q = r \<and> w1 = w') \<or>
        (\<not> truthy q \<and> visitSpecifiers recur e dir specifier source exported foundPath w1
            = Some (Inr (r, w')))"
      by (auto simp: Let_def split: option.splits sum.splits if_splits)
    from recur [OF call] have 1: "extends allowed w w1" .
    from rest show ?thesis
    proof
      assume "truthy q \<and> q = r \<and> w1 = w'"
      with 1 show ?thesis by simp
    next
      assume "\<not> truthy q \<and> visitSpecifiers recur e dir specifier source exported foundPath w1
            = Some (Inr (r, w'))"
      then have "extends allowed w1 w'" using Cons.IH by blast
      with 1 show ?thesis by (rule extends_trans)
    qed
  qed
qed

lemma traverse_extends:
  assumes recur: "\<And>p w r w'. recur p w = Some (Inr (r, w')) \<Longrightarrow> extends allowed w w'"
  shows "traverse recur e dir filePath specifier ast foundPath w = Some (Inr (r, w'))
           \<Longrightarrow> extends allowed w w'"
proof (induction ast arbitrary: foundPath w)
  case Nil
  then show ?case by (simp add: extends_refl)
next
  case (Cons node ast)
  show ?case
  proof (cases node)
    case (ExportNamedDeclaration d exported source)
    show ?thesis
    proof (cases d)
      case (Some decl)
      with ExportNamedDeclaration Cons.prems show ?thesis
        using Cons.IH by simp
    next
      case None
      with ExportNamedDeclaration Cons.prems obtain f1 w1 where
        v: "visitSpecifiers recur e dir specifier source exported foundPath w = Some (Inr (f1, w1))"
        and t: "traverse recur e dir filePath specifier ast f1 w1 = Some (Inr (r, w'))"
        by (auto split: option.splits sum.splits)
      from visitSpecifiers_extends [OF recur v] Cons.IH [OF t] show ?thesis
        by (rule extends_trans)
    qed
  next
    case (ExportAllDeclaration sourcePath)
    show ?thesis
    proof (cases "truthy (tryResolveSourcePath e dir sourcePath)")
      case False
      with ExportAllDeclaration Cons.prems show ?thesis
        using Cons.IH by simp
    next
      case True
      with ExportAllDeclaration Cons.prems obtain q w1 where
        call: "recur (the (tryResolveSourcePath e dir sourcePath)) w = Some (Inr (q, w1))"
        and t: "traverse recur e dir filePath specifier ast
                  (if truthy q then q else foundPath) w1 = Some (Inr (r, w'))"
        by (auto simp: Let_def split: option.splits sum.splits)
      from recur [OF call] Cons.IH [OF t] show ?thesis
        by (rule extends_trans)
    qed
  qed
qed

lemma resolveExport_extends:
  "resolveExport n e specifier fileOrDir w = Some (Inr (r, w'))
     \<Longrightarrow> extends (allowedBarrelFiles e) w w'"
proof (induction n arbitrary: fileOrDir w r w')
  case 0
  then show ?case by simp
next
  case (Suc n)
  let ?recur = "resolveExport n e specifier"
  have recur: "\<And>p w r w'. ?recur p w = Some (Inr (r, w')) \<Longrightarrow> extends (allowedBarrelFiles e) w w'"
    by (rule Suc.IH)
  from Suc.prems obtain stat where stat: "fs e fileOrDir = Some stat"
    by (auto split: option.splits)
  define filePath where
    "filePath = (if stat = Directory then path_join [fileOrDir, ''index.ts''] else fileOrDir)"
  define dir where "dir = (if stat = Directory then fileOrDir else path_dirname fileOrDir)"
  show ?case
  proof (cases "existsSync e filePath")
    case False
    with Suc.prems stat have "w' = w"
      by (simp add: filePath_def Let_def)
    then show ?thesis by (simp add: extends_refl)
  next
    case True
    with Suc.prems stat obtain w1 ast f w2 where
      m: "markBarrel e filePath w = Inr w1"
      and t: "traverse ?recur e dir filePath specifier ast None w1 = Some (Inr (f, w2))"
      and w2: "w2 = w'"
      by (auto simp: filePath_def dir_def Let_def
          split: sum.splits option.splits fs_node.splits parsed.splits)
    from markBarrel_extends [OF m] traverse_extends [OF recur t] w2 show ?thesis
      by (auto intro: extends_trans)
  qed
qed

lemma markBarrel_eq:
  "pathToCorePath filePath = Inr corePath \<Longrightarrow>
     markBarrel e filePath w =
       Inr \<lparr>barrelFile = lastMatch (allowedBarrelFiles e) [filePath] (barrelFile w),
            visited = visited w @ [filePath]\<rparr>"
  by (simp add: markBarrel_def assignBarrel_filter lastMatch_def matching_def)





text \<open>The paths and files of \<open>fooRepo\<close>, evaluated once.\<close>

lemma v3_paths:
  "path_dirname ''/r/packages/core/src/v3/index.ts'' = ''/r/packages/core/src/v3''"
  "path_dirname ''/r/packages/core/src/v3/foo.ts'' = ''/r/packages/core/src/v3''"
  "path_join [''/r/packages/core/src/v3'', ''index.ts''] = ''/r/packages/core/src/v3/index.ts''"
  "path_resolve ''/r'' [''/r/packages/core/src/v3/index.ts''] = ''/r/packages/core/src/v3/index.ts''"
  "path_resolve ''/r'' [''/r/packages/core/src/v3'', ''./foo''] = ''/r/packages/core/src/v3/foo''"
  "path_resolve ''/r'' [''/r/packages/core/src/v3'', ''./foo.ts''] = ''/r/packages/core/src/v3/foo.ts''"
  by (simp_all add: path_dirname_def path_join_def path_normalize_def path_resolve_def
      isAbsolute_def slash_def normalizeString_def)


lemma core_paths:
  "pathToCorePath ''/r/packages/core/src/v3/index.ts'' = Inr ''@trigger.dev/core/v3/index.ts''"
  "pathToCorePath ''/r/packages/core/src/v3/foo.ts'' = Inr ''@trigger.dev/core/v3/foo.ts''"
  by (simp_all add: pathToCorePath_def slash_def backslash_def)






section \<open>The export graph walker: fuel\<close>

text \<open>
  The fuel only bounds the depth: a call that returns or throws with some fuel does the
  same with any larger amount.
\<close>

lemma visitSpecifiers_mono:
  assumes recur: "\<And>p w r. recur p w = Some r \<Longrightarrow> recur' p w = Some r"
  shows "visitSpecifiers recur e dir specifier source exported foundPath w = Some r
           \<Longrightarrow> visitSpecifiers recur' e dir specifier source exported foundPath w = Some r"
proof (induction exported arbitrary: w)
  case Nil
  then show ?case by simp
next
  case (Cons x exported)
  show ?case
  proof (cases "x = specifier")
    case False
    with Cons.prems Cons.IH show ?thesis by simp
  next
    case x: True
    show ?thesis
    proof (cases source)
      case None
      with x Cons.prems show ?thesis by simp
    next
      case (Some sourcePath)
      show ?thesis
      proof (cases "truthy (tryResolveSourcePath e dir sourcePath)")
        case False
        with x Some Cons.prems Cons.IH show ?thesis by simp
      next
        case True
        let ?p = "the (tryResolveSourcePath e dir sourcePath)"
        from x Some True Cons.prems obtain c where c: "recur ?p w = Some c"
          by (cases "recur ?p w") simp_all
        note c' = recur [OF c]
        show ?thesis
        proof (cases c)
          case (Inl err)
          from c Inl have c1: "recur ?p w = Some (Inl err)" by simp
          from c' Inl have c2: "recur' ?p w = Some (Inl err)" by simp
          from Cons.prems have r: "r = Inl err" by (simp add: x Some True c1)
          show ?thesis unfolding r by (simp add: x Some True c2)
        next
          case (Inr qw)
          obtain q w1 where qw: "qw = (q, w1)" by (cases qw)
          from c Inr qw have c1: "recur ?p w = Some (Inr (q, w1))" by simp
          from c' Inr qw have c2: "recur' ?p w = Some (Inr (q, w1))" by simp
          show ?thesis
          proof (cases "truthy q")
            case t: True
            from Cons.prems have r: "r = Inr (q, w1)" by (simp add: x Some True c1 t)
            show ?thesis unfolding r by (simp add: x Some True c2 t)
          next
            case f: False
            from Cons.prems
            have "visitSpecifiers recur e dir specifier source exported foundPath w1 = Some r"
              by (simp add: x Some True c1 f)
            from Cons.IH [OF this] show ?thesis by (simp add: x Some True c2 f)
          qed
        qed
      qed
    qed
  qed
qed

lemma traverse_mono:
  assumes recur: "\<And>p w r. recur p w = Some r \<Longrightarrow> recur' p w = Some r"
  shows "traverse recur e dir filePath specifier ast foundPath w = Some r
           \<Longrightarrow> traverse recur' e dir filePath specifier ast foundPath w = Some r"
proof (induction ast arbitrary: foundPath w)
  case Nil
  then show ?case by simp
next
  case (Cons node ast)
  show ?case
  proof (cases node)
    case (ExportNamedDeclaration d exported source)
    show ?thesis
    proof (cases d)
      case (Some decl)
      with ExportNamedDeclaration Cons.prems show ?thesis
        using Cons.IH by simp
    next
      case None
      note node = ExportNamedDeclaration [unfolded None]
      let ?v = "visitSpecifiers recur e dir specifier source exported foundPath w"
      from Cons.prems obtain c where v: "?v = Some c"
        unfolding node by (cases ?v) simp_all
      note v' = visitSpecifiers_mono [of recur recur', OF recur v]
      show ?thesis
      proof (cases c)
        case (Inl err)
        from v Inl have v1: "?v = Some (Inl err)" by simp
        from v' Inl have v2: "visitSpecifiers recur' e dir specifier source exported foundPath w
            = Some (Inl err)" by simp
        from Cons.prems have r: "r = Inl err" by (simp add: node v1)
        show ?thesis unfolding r by (simp add: node v2)
      next
        case (Inr fw)
        obtain f1 w1 where fw: "fw = (f1, w1)" by (cases fw)
        from v Inr fw have v1: "?v = Some (Inr (f1, w1))" by simp
        from v' Inr fw have v2: "visitSpecifiers recur' e dir specifier source exported foundPath w
            = Some (Inr (f1, w1))" by simp
        from Cons.prems have "traverse recur e dir filePath specifier ast f1 w1 = Some r"
          by (simp add: node v1)
        from Cons.IH [OF this] show ?thesis by (simp add: node v2)
      qed
    qed
  next
    case (ExportAllDeclaration sourcePath)
    note node = ExportAllDeclaration
    show ?thesis
    proof (cases "truthy (tryResolveSourcePath e dir sourcePath)")
      case False
      with node Cons.prems show ?thesis
        using Cons.IH by simp
    next
      case True
      let ?p = "the (tryResolveSourcePath e dir sourcePath)"
      from True Cons.prems obtain c where c: "recur ?p w = Some c"
        unfolding node by (cases "recur ?p w") simp_all
      note c' = recur [OF c]
      show ?thesis
      proof (cases c)
        case (Inl err)
        from c Inl have c1: "recur ?p w = Some (Inl err)" by simp
        from c' Inl have c2: "recur' ?p w = Some (Inl err)" by simp
        from Cons.prems have r: "r = Inl err" by (simp add: node True c1)
        show ?thesis unfolding r by (simp add: node True c2)
      next
        case (Inr qw)
        obtain q w1 where qw: "qw = (q, w1)" by (cases qw)
        from c Inr qw have c1: "recur ?p w = Some (Inr (q, w1))" by simp
        from c' Inr qw have c2: "recur' ?p w = Some (Inr (q, w1))" by simp
        from Cons.prems
        have "traverse recur e dir filePath specifier ast
                (if truthy q then q else foundPath) w1 = Some r"
          by (simp add: node True c1)
        from Cons.IH [OF this] show ?thesis
          by (simp add: node True c2)
      qed
    qed
  qed
qed


lemma resolveExport_Suc:
  "resolveExport n e specifier fileOrDir w = Some r
     \<Longrightarrow> resolveExport (Suc n) e specifier fileOrDir w = Some r"
proof (induction n arbitrary: fileOrDir w r)
  case 0
  then show ?case by simp
next
  case (Suc n)
  have recur: "\<And>p w r. resolveExport n e specifier p w = Some r
      \<Longrightarrow> resolveExport (Suc n) e specifier p w = Some r"
    by (rule Suc.IH)
  have mono: "traverse (resolveExport (Suc n) e specifier) e dir filePath specifier ast f w1
      = Some c"
    if "traverse (resolveExport n e specifier) e dir filePath specifier ast f w1 = Some c"
    for dir filePath ast f w1 c
    using recur that by (rule traverse_mono)
  note step = resolveExport.simps(2)
  show ?case
  proof (cases "fs e fileOrDir")
    case None
    with Suc.prems show ?thesis by (simp del: step add: step [of n] step [of "Suc n"])
  next
    case (Some stat)
    define filePath where
      "filePath = (if stat = Directory then path_join [fileOrDir, ''index.ts''] else fileOrDir)"
    define dir where "dir = (if stat = Directory then fileOrDir else path_dirname fileOrDir)"
    have unfold: "resolveExport (Suc k) e specifier fileOrDir w =
        (if \<not> existsSync e filePath then Some (Inr (None, w))
         else
           (case markBarrel e filePath w of
              Inl err \<Rightarrow> Some (Inl err)
            | Inr w1 \<Rightarrow>
                (case fs e filePath of
                   Some (File (Module ast)) \<Rightarrow>
                     (case traverse (resolveExport k e specifier) e dir filePath specifier
                             ast None w1 of
                        None \<Rightarrow> None
                      | Some (Inl err) \<Rightarrow> Some (Inl err)
                      | Some (Inr (foundPath, w2)) \<Rightarrow>
                          Some (Inr (if truthy foundPath then foundPath else None, w2)))
                 | Some (File Unparsable) \<Rightarrow> Some (Inl SyntaxError)
                 | _ \<Rightarrow> Some (Inl EISDIR))))" for k
      by (simp only: step Some option.case Let_def filePath_def dir_def)
    show ?thesis
    proof (cases "existsSync e filePath")
      case False
      with Suc.prems show ?thesis by (simp only: unfold if_True simp_thms)
    next
      case True
      show ?thesis
      proof (cases "markBarrel e filePath w")
        case (Inl err)
        with Suc.prems True show ?thesis by (simp only: unfold sum.case if_False simp_thms)
      next
        case (Inr w1)
        show ?thesis
        proof (cases "\<exists>ast. fs e filePath = Some (File (Module ast))")
          case False
          then have "\<And>k. resolveExport (Suc k) e specifier fileOrDir w
              = (case fs e filePath of Some (File Unparsable) \<Rightarrow> Some (Inl SyntaxError)
                 | _ \<Rightarrow> Some (Inl EISDIR))"
            unfolding unfold using True Inr
            by (auto split: option.splits fs_node.splits parsed.splits)
          with Suc.prems show ?thesis by simp
        next
          case m: True
          then obtain ast where ast: "fs e filePath = Some (File (Module ast))" by blast
          have u: "resolveExport (Suc k) e specifier fileOrDir w =
              (case traverse (resolveExport k e specifier) e dir filePath specifier ast None w1 of
                 None \<Rightarrow> None
               | Some (Inl err) \<Rightarrow> Some (Inl err)
               | Some (Inr (foundPath, w2)) \<Rightarrow>
                   Some (Inr (if truthy foundPath then foundPath else None, w2)))" for k
            unfolding unfold using True Inr ast by simp
          from Suc.prems obtain c where
            c: "traverse (resolveExport n e specifier) e dir filePath specifier ast None w1
                  = Some c"
            unfolding u
            by (cases "traverse (resolveExport n e specifier) e dir filePath specifier ast None w1")
              simp_all
          from Suc.prems show ?thesis
            unfolding u [of n] u [of "Suc n"] c mono [OF c] .
        qed
      qed
    qed
  qed
qed

lemma resolveExport_fuel:
  assumes "resolveExport n e specifier fileOrDir w = Some r" and "n \<le> m"
  shows "resolveExport m e specifier fileOrDir w = Some r"
  using assms(2,1)
proof (induction m rule: dec_induct)
  case base
  then show ?case .
next
  case (step k)
  from resolveExport_Suc [OF step.IH [OF step.prems]] show ?case .
qed

section \<open>The export graph walker: order and termination\<close>

text \<open>
  C2, the code where a file declares the symbol and then re-exports everything from a
  file that declares it too: \<^verbatim>\<open>index.ts\<close> is
  \<^verbatim>\<open>export const X = 1; export * from "./b";\<close>. The declaration in \<^verbatim>\<open>index.ts\<close> matches
  first, but the traversal goes on, follows the wildcard re-export and overwrites
  \<open>foundPath\<close>: the result is \<^verbatim>\<open>b.ts\<close>, the last successful resolution, not the file's
  own declaration.
\<close>

theorem resolveExport_shadowed_declaration:
  "fs shadowRepo ''/r/packages/core/src/index.ts''
     = Some (File (Module [ExportNamedDeclaration (Some (VariableDeclaration [''X''])) [] None,
                           ExportAllDeclaration ''./b'']))
   \<and> resolveExport (Suc (Suc n)) shadowRepo ''X'' ''/r/packages/core/src/index.ts'' start
     = Some (Inr (Some ''/r/packages/core/src/b.ts'',
          \<lparr>barrelFile = None,
           visited = [''/r/packages/core/src/index.ts'', ''/r/packages/core/src/b.ts'']\<rparr>))"
proof -
  have p: "path_dirname ''/r/packages/core/src/index.ts'' = ''/r/packages/core/src''"
    "path_dirname ''/r/packages/core/src/b.ts'' = ''/r/packages/core/src''"
    "path_resolve ''/r'' [''/r/packages/core/src'', ''./b''] = ''/r/packages/core/src/b''"
    "path_resolve ''/r'' [''/r/packages/core/src'', ''./b.ts''] = ''/r/packages/core/src/b.ts''"
    by (simp_all add: path_dirname_def path_resolve_def isAbsolute_def slash_def
        normalizeString_def)
  have f: "fs shadowRepo ''/r/packages/core/src/index.ts''
     = Some (File (Module [ExportNamedDeclaration (Some (VariableDeclaration [''X''])) [] None,
                           ExportAllDeclaration ''./b'']))"
    "fs shadowRepo ''/r/packages/core/src/b.ts''
     = Some (File (Module [ExportNamedDeclaration (Some (VariableDeclaration [''X''])) [] None]))"
    "fs shadowRepo ''/r/packages/core/src/b'' = None"
    "cwd shadowRepo = ''/r''"
    "allowedBarrelFiles shadowRepo = []"
    by (simp_all add: shadowRepo_def repo_def)
  have t: "tryResolveSourcePath shadowRepo ''/r/packages/core/src'' ''./b'' = Some ''/r/packages/core/src/b.ts''"
    by (simp add: tryResolveSourcePath_first_loop possibleExtensions_def existsSync_def f p)
  have leaf: "\<And>w. resolveExport (Suc n) shadowRepo ''X'' ''/r/packages/core/src/b.ts'' w
     = Some (Inr (Some ''/r/packages/core/src/b.ts'',
          \<lparr>barrelFile = barrelFile w, visited = visited w @ [''/r/packages/core/src/b.ts'']\<rparr>))"
    by (simp add: f p existsSync_def markBarrel_def truthy_def Let_def)
  have "resolveExport (Suc (Suc n)) shadowRepo ''X'' ''/r/packages/core/src/index.ts'' start
     = Some (Inr (Some ''/r/packages/core/src/b.ts'',
          \<lparr>barrelFile = None,
           visited = [''/r/packages/core/src/index.ts'', ''/r/packages/core/src/b.ts'']\<rparr>))"
    by (subst resolveExport.simps(2))
      (simp add: f p t leaf existsSync_def markBarrel_def truthy_def Let_def start_def
        del: resolveExport.simps(2))
  with f(1) show ?thesis by simp
qed

text \<open>
  C3, the code on the cyclic re-export graph of the claim (\<^verbatim>\<open>a.ts\<close> re-exports all of
  \<^verbatim>\<open>b.ts\<close> and \<^verbatim>\<open>b.ts\<close> all of \<^verbatim>\<open>a.ts\<close>): whatever the depth allowed, whatever the
  symbol and the allow-list, \<open>resolveExport\<close> does not return from either file. No visited
  set and no depth bound stops the recursion.
\<close>

theorem resolveExport_cycle_diverges:
  "resolveExport n (cycleRepo al) specifier ''/r/packages/core/src/a.ts'' w = None
   \<and> resolveExport n (cycleRepo al) specifier ''/r/packages/core/src/b.ts'' w = None"
proof (induction n arbitrary: w)
  case 0
  show ?case by simp
next
  case (Suc n)
  have p: "path_dirname ''/r/packages/core/src/a.ts'' = ''/r/packages/core/src''"
    "path_dirname ''/r/packages/core/src/b.ts'' = ''/r/packages/core/src''"
    "path_resolve ''/r'' [''/r/packages/core/src'', ''./a''] = ''/r/packages/core/src/a''"
    "path_resolve ''/r'' [''/r/packages/core/src'', ''./b''] = ''/r/packages/core/src/b''"
    "path_resolve ''/r'' [''/r/packages/core/src'', ''./a.ts''] = ''/r/packages/core/src/a.ts''"
    "path_resolve ''/r'' [''/r/packages/core/src'', ''./b.ts''] = ''/r/packages/core/src/b.ts''"
    by (simp_all add: path_dirname_def path_resolve_def isAbsolute_def slash_def
        normalizeString_def)
  have c: "pathToCorePath ''/r/packages/core/src/a.ts'' = Inr ''@trigger.dev/core/a.ts''"
    "pathToCorePath ''/r/packages/core/src/b.ts'' = Inr ''@trigger.dev/core/b.ts''"
    by (simp_all add: pathToCorePath_def slash_def backslash_def)
  have f: "fs (cycleRepo al) ''/r/packages/core/src/a.ts'' = Some (File (Module [ExportAllDeclaration ''./b'']))"
    "fs (cycleRepo al) ''/r/packages/core/src/b.ts'' = Some (File (Module [ExportAllDeclaration ''./a'']))"
    "fs (cycleRepo al) ''/r/packages/core/src/a'' = None"
    "fs (cycleRepo al) ''/r/packages/core/src/b'' = None"
    "cwd (cycleRepo al) = ''/r''"
    by (simp_all add: cycleRepo_def repo_def)
  have t: "tryResolveSourcePath (cycleRepo al) ''/r/packages/core/src'' ''./b'' = Some ''/r/packages/core/src/b.ts''"
    "tryResolveSourcePath (cycleRepo al) ''/r/packages/core/src'' ''./a'' = Some ''/r/packages/core/src/a.ts''"
    by (simp_all add: tryResolveSourcePath_first_loop possibleExtensions_def existsSync_def f p)
  show ?case
    by (simp add: f p t existsSync_def markBarrel_eq [OF c(1)] markBarrel_eq [OF c(2)] truthy_def
        Let_def Suc.IH)
qed

section \<open>The export graph walker: the recorded barrel file\<close>

lemma durations_eval:
  "resolveExport (Suc n) durationsRepo specifier ''/r/packages/core/src/v3/utils/durations.ts'' start
     = Some (Inr (if specifier = ''parse'' then Some ''/r/packages/core/src/v3/utils/durations.ts''
                  else None,
          \<lparr>barrelFile = Some ''@trigger.dev/core/v3/utils'',
           visited = [''/r/packages/core/src/v3/utils/durations.ts'']\<rparr>))"
proof -
  have c: "pathToCorePath ''/r/packages/core/src/v3/utils/durations.ts''
             = Inr ''@trigger.dev/core/v3/utils/durations.ts''"
    by (simp add: pathToCorePath_def slash_def backslash_def)
  show ?thesis
    by (simp add: durationsRepo_def repo_def existsSync_def markBarrel_def c truthy_def Let_def
        start_def)
qed

lemma durations_matching:
  "matching (allowedBarrelFiles durationsRepo) ''/r/packages/core/src/v3/utils/durations.ts''
     = [''@trigger.dev/core/v3/utils/durations'', ''@trigger.dev/core/v3/utils'']"
  by (simp add: matching_def pathToCorePath_def slash_def backslash_def durationsRepo_def repo_def)

text \<open>
  C5, as stated, fails: \<^verbatim>\<open>v3/utils/durations.ts\<close> starts with two allow-list entries, the
  first of them \<open>@trigger.dev/core/v3/utils/durations\<close>; the traversal records the last,
  \<open>@trigger.dev/core/v3/utils\<close>.
\<close>

theorem resolveExport_first_match_counterexample:
  "matching (allowedBarrelFiles durationsRepo) ''/r/packages/core/src/v3/utils/durations.ts''
     = [''@trigger.dev/core/v3/utils/durations'', ''@trigger.dev/core/v3/utils'']
   \<and> resolveExport (Suc 0) durationsRepo ''parse''
         ''/r/packages/core/src/v3/utils/durations.ts'' start
     = Some (Inr (Some ''/r/packages/core/src/v3/utils/durations.ts'',
          \<lparr>barrelFile = Some ''@trigger.dev/core/v3/utils'',
           visited = [''/r/packages/core/src/v3/utils/durations.ts'']\<rparr>))"
  using durations_eval [of 0 "''parse''"] durations_matching by simp

text \<open>
  C5, amended: during a \<open>resolveExport\<close> traversal the candidate recorded is the last
  match: of all allow-list entries that the package-relative path of a visited file
  starts with, taken file by file in the order of the visits and, for one file, in
  allow-list order, the last one; when there is none, the candidate is left as it was.
  It is recorded whether or not the queried symbol is found (\<open>r\<close> is any result).
\<close>

theorem resolveExport_records_last_match:
  assumes "resolveExport n e specifier fileOrDir w = Some (Inr (r, w'))"
  shows "\<exists>files. visited w' = visited w @ files
           \<and> barrelFile w' =
               (case concat (map (matching (allowedBarrelFiles e)) files) of
                  [] \<Rightarrow> barrelFile w
                | m # ms \<Rightarrow> Some (last (m # ms)))"
  using resolveExport_extends [OF assms] unfolding extends_def lastMatch_def .

text \<open>
The amended C5 on \<^verbatim>\<open>v3/utils/durations.ts\<close> and a symbol that is not there.
\<close>

theorem resolveExport_records_last_match_witness:
  "resolveExport (Suc 0) durationsRepo ''absent''
       ''/r/packages/core/src/v3/utils/durations.ts'' start
     = Some (Inr (None,
          \<lparr>barrelFile = Some ''@trigger.dev/core/v3/utils'',
           visited = [''/r/packages/core/src/v3/utils/durations.ts'']\<rparr>))
   \<and> Some ''@trigger.dev/core/v3/utils'' =
       (case concat (map (matching (allowedBarrelFiles durationsRepo))
                      [''/r/packages/core/src/v3/utils/durations.ts'']) of
          [] \<Rightarrow> None
        | m # ms \<Rightarrow> Some (last (m # ms)))"
proof -
  let ?w = "\<lparr>barrelFile = Some ''@trigger.dev/core/v3/utils'',
            visited = [''/r/packages/core/src/v3/utils/durations.ts'']\<rparr>"
  have e: "resolveExport (Suc 0) durationsRepo ''absent''
       ''/r/packages/core/src/v3/utils/durations.ts'' start = Some (Inr (None, ?w))"
    using durations_eval [of 0 "''absent''"] by simp
  from resolveExport_records_last_match [OF e] obtain files where
    v: "visited ?w = visited start @ files"
    and b: "barrelFile ?w =
       (case concat (map (matching (allowedBarrelFiles durationsRepo)) files) of
          [] \<Rightarrow> barrelFile start
        | m # ms \<Rightarrow> Some (last (m # ms)))"
    by blast
  from v have f: "files = [''/r/packages/core/src/v3/utils/durations.ts'']"
    by (simp add: start_def)
  have s: "barrelFile start = None"
    by (simp add: start_def)
  from b [unfolded f s] have "Some ''@trigger.dev/core/v3/utils'' =
       (case concat (map (matching (allowedBarrelFiles durationsRepo))
                      [''/r/packages/core/src/v3/utils/durations.ts'']) of
          [] \<Rightarrow> None
        | m # ms \<Rightarrow> Some (last (m # ms)))"
    by simp
  with e show ?thesis by (simp only: simp_thms)
qed

section \<open>\<open>resolveSpecifier\<close> and the allow-list\<close>



lemma specifierFixes_named:
  assumes "\<forall>(i, l, t)\<in>set triples. resolveSpecifier n e importSource i = Some (Inr (res i))"
  shows "specifierFixes n e importSource (map (\<lambda>(i, l, t). ImportSpecifier i l t) triples)
     = Some (Inr (map (\<lambda>(i, l, t). \<lparr>original = t, path = the (res i)\<rparr>)
                    (filter (\<lambda>(i, l, t). truthy (res i)) triples)))"
  using assms by (induction triples) auto






section \<open>End to end: the import of \<open>Foo\<close>\<close>






section \<open>The synthesized fix\<close>

lemma pairRepo_resolve:
  assumes "specifier = ''A'' \<or> specifier = ''B''"
  shows "resolveSpecifier (Suc (Suc 0)) pairRepo ''@trigger.dev/core/v3'' specifier
     = Some (Inr (Some ''@trigger.dev/core/v3/foo''))"
proof -
  have f: "fs pairRepo ''/r/packages/core/src/v3'' = Some Directory"
    "fs pairRepo ''/r/packages/core/src/v3/index.ts''
       = Some (File (Module [ExportAllDeclaration ''./foo'']))"
    "fs pairRepo ''/r/packages/core/src/v3/foo.ts''
       = Some (File (Module [ExportNamedDeclaration (Some (VariableDeclaration [''A''])) [] None,
                             ExportNamedDeclaration (Some (FunctionDeclaration ''B'')) [] None]))"
    "fs pairRepo ''/r/packages/core/src/v3/foo'' = None"
    "cwd pairRepo = ''/r''"
    "allowedBarrelFiles pairRepo = [''@trigger.dev/core/v3/foo'']"
    "matchPath pairRepo = Some coreMatchPath"
    by (simp_all add: pairRepo_def repo_def)
  have m: "resolveModulePath pairRepo ''@trigger.dev/core/v3'' = Inr ''/r/packages/core/src/v3/index.ts''"
    by (simp add: resolveModulePath_def f coreMatchPath_def truthy_def existsSync_def
        isDirectory_def v3_paths)
  have t: "tryResolveSourcePath pairRepo ''/r/packages/core/src/v3'' ''./foo''
     = Some ''/r/packages/core/src/v3/foo.ts''"
    by (simp add: tryResolveSourcePath_first_loop possibleExtensions_def existsSync_def f v3_paths)
  have l: "lastMatch [''@trigger.dev/core/v3/foo''] [''/r/packages/core/src/v3/index.ts''] None = None"
    "lastMatch [''@trigger.dev/core/v3/foo''] [''/r/packages/core/src/v3/foo.ts''] None
       = Some ''@trigger.dev/core/v3/foo''"
    by (simp_all add: lastMatch_def matching_def core_paths)
  from assms show ?thesis
    by (auto simp: resolveSpecifier_def resolveSpecifier_walk_def m v3_paths f t l existsSync_def
        markBarrel_eq [OF core_paths(1)] markBarrel_eq [OF core_paths(2)] truthy_def Let_def)
qed

lemma localExportRepo_resolve:
  "resolveSpecifier (Suc (Suc 0)) localExportRepo ''@trigger.dev/core/v3'' ''A''
     = Some (Inr (Some ''@trigger.dev/core/v3/foo''))"
  "resolveSpecifier (Suc (Suc 0)) localExportRepo ''@trigger.dev/core/v3'' ''X''
     = Some (Inl TypeError)"
proof -
  have f: "fs localExportRepo ''/r/packages/core/src/v3'' = Some Directory"
    "fs localExportRepo ''/r/packages/core/src/v3/index.ts''
       = Some (File (Module [ExportAllDeclaration ''./foo'',
                             ExportNamedDeclaration None [''X''] None]))"
    "fs localExportRepo ''/r/packages/core/src/v3/foo.ts''
       = Some (File (Module [ExportNamedDeclaration (Some (VariableDeclaration [''A''])) [] None]))"
    "fs localExportRepo ''/r/packages/core/src/v3/foo'' = None"
    "cwd localExportRepo = ''/r''"
    "allowedBarrelFiles localExportRepo = [''@trigger.dev/core/v3/foo'']"
    "matchPath localExportRepo = Some coreMatchPath"
    by (simp_all add: localExportRepo_def repo_def)
  have m: "resolveModulePath localExportRepo ''@trigger.dev/core/v3''
      = Inr ''/r/packages/core/src/v3/index.ts''"
    by (simp add: resolveModulePath_def f coreMatchPath_def truthy_def existsSync_def
        isDirectory_def v3_paths)
  have t: "tryResolveSourcePath localExportRepo ''/r/packages/core/src/v3'' ''./foo''
     = Some ''/r/packages/core/src/v3/foo.ts''"
    by (simp add: tryResolveSourcePath_first_loop possibleExtensions_def existsSync_def f v3_paths)
  have l: "lastMatch [''@trigger.dev/core/v3/foo''] [''/r/packages/core/src/v3/index.ts''] None = None"
    "lastMatch [''@trigger.dev/core/v3/foo''] [''/r/packages/core/src/v3/foo.ts''] None
       = Some ''@trigger.dev/core/v3/foo''"
    by (simp_all add: lastMatch_def matching_def core_paths)
  show "resolveSpecifier (Suc (Suc 0)) localExportRepo ''@trigger.dev/core/v3'' ''A''
     = Some (Inr (Some ''@trigger.dev/core/v3/foo''))"
    by (simp add: resolveSpecifier_def resolveSpecifier_walk_def m v3_paths f t l existsSync_def
        markBarrel_eq [OF core_paths(1)] markBarrel_eq [OF core_paths(2)] truthy_def Let_def)
  show "resolveSpecifier (Suc (Suc 0)) localExportRepo ''@trigger.dev/core/v3'' ''X''
     = Some (Inl TypeError)"
    by (simp add: resolveSpecifier_def resolveSpecifier_walk_def m v3_paths f t l existsSync_def
        markBarrel_eq [OF core_paths(1)] markBarrel_eq [OF core_paths(2)] truthy_def Let_def)
qed

lemma localExportRepo_report:
  "ImportDeclaration (Suc (Suc 0)) localExportRepo importLocal = Some (Inl TypeError)"
  by (simp add: ImportDeclaration_def importLocal_def blockedImportSources_def
      localExportRepo_resolve truthy_def)

text \<open>
  C4, as stated, fails twice. \<^verbatim>\<open>import { A, B as C } from "@trigger.dev/core/v3";\<close> has
  two specifiers that resolve to the one path \<open>@trigger.dev/core/v3/foo\<close>, and the fix
  holds two import statements, not one statement for the distinct path. And in
  \<^verbatim>\<open>import { A, X } from "@trigger.dev/core/v3";\<close>, with \<^verbatim>\<open>export { X };\<close> in
  \<^verbatim>\<open>v3/index.ts\<close>, the specifier \<open>A\<close> resolves, but the resolution of \<open>X\<close> throws at
  \<open>node.source.value\<close> (line 107) and nothing is reported.
\<close>

theorem ImportDeclaration_pair_counterexample:
  "ImportDeclaration (Suc (Suc 0)) pairRepo importPair
     = Some (Inr (Some
         \<lparr>messageId = ''noTriggerCoreImportFixable'',
          data = [(''importSource'', ''@trigger.dev/core/v3''), (''name'', ''A, C''),
                  (''resolvedPath'', ''@trigger.dev/core/v3/foo'')],
          fix_replaceText =
            Some (''import { A } from '' @ [squote] @ ''@trigger.dev/core/v3/foo'' @ [squote] @ '';''
                  @ [newline]
                  @ ''import { B as C } from '' @ [squote] @ ''@trigger.dev/core/v3/foo''
                  @ [squote] @ '';'')\<rparr>))
   \<and> resolveSpecifier (Suc (Suc 0)) localExportRepo ''@trigger.dev/core/v3'' ''A''
       = Some (Inr (Some ''@trigger.dev/core/v3/foo''))
   \<and> ImportDeclaration (Suc (Suc 0)) localExportRepo importLocal = Some (Inl TypeError)"
  using pairRepo_resolve [of "''A''"] pairRepo_resolve [of "''B''"]
    localExportRepo_resolve(1) localExportRepo_report
  by (simp add: ImportDeclaration_def importPair_def blockedImportSources_def truthy_def
      importText_def uniq_def local_name_def)

text \<open>
  C4, amended: when every specifier of a blocked import is a named one, the resolution
  of each of them returns (none throws), and at least one of them resolves, the rule
  reports the fixable diagnostic, and the autofix replaces the whole import statement
  with one statement per resolved specifier, in the order of the specifiers and joined
  by newlines, each of the shape
  \<^verbatim>\<open>import { <specifier text> } from '<resolved path>';\<close> with the specifier's source
  text verbatim (alias included). Specifiers are not grouped by path.
\<close>

theorem ImportDeclaration_one_import_per_specifier:
  assumes "source_value node \<in> set blockedImportSources"
    and "specifiers node = map (\<lambda>(i, l, t). ImportSpecifier i l t) triples"
    and "\<forall>(i, l, t)\<in>set triples.
           resolveSpecifier n e (source_value node) i = Some (Inr (res i))"
    and "\<exists>(i, l, t)\<in>set triples. truthy (res i)"
  shows "\<exists>r. ImportDeclaration n e node = Some (Inr (Some r))
           \<and> messageId r = ''noTriggerCoreImportFixable''
           \<and> fix_replaceText r =
               Some (join_with [newline]
                 (map (\<lambda>(i, l, t).
                         ''import { '' @ t @ '' } from '' @ [squote] @ the (res i) @ [squote] @ '';'')
                    (filter (\<lambda>(i, l, t). truthy (res i)) triples)))"
proof -
  let ?fixes = "map (\<lambda>(i, l, t). \<lparr>original = t, path = the (res i)\<rparr>)
                  (filter (\<lambda>(i, l, t). truthy (res i)) triples)"
  have f: "specifierFixes n e (source_value node) (specifiers node) = Some (Inr ?fixes)"
    unfolding assms(2) using assms(3) by (rule specifierFixes_named)
  from assms(4) have ne: "?fixes \<noteq> []"
    by (auto simp: filter_empty_conv)
  have stmts: "map importText ?fixes =
      map (\<lambda>(i, l, t).
             ''import { '' @ t @ '' } from '' @ [squote] @ the (res i) @ [squote] @ '';'')
        (filter (\<lambda>(i, l, t). truthy (res i)) triples)"
    by (simp add: importText_def case_prod_unfold)
  from assms(1) f ne show ?thesis
    unfolding stmts [symmetric]
    by (simp add: ImportDeclaration_def)
qed

text \<open>
The amended C4 at \<^verbatim>\<open>import { A, B as C } from "@trigger.dev/core/v3";\<close>.
\<close>

theorem ImportDeclaration_one_import_per_specifier_witness:
  "source_value importPair \<in> set blockedImportSources
   \<and> specifiers importPair
       = map (\<lambda>(i, l, t). ImportSpecifier i l t) [(''A'', ''A'', ''A''), (''B'', ''C'', ''B as C'')]
   \<and> resolveSpecifier (Suc (Suc 0)) pairRepo (source_value importPair) ''A''
       = Some (Inr (Some ''@trigger.dev/core/v3/foo''))
   \<and> resolveSpecifier (Suc (Suc 0)) pairRepo (source_value importPair) ''B''
       = Some (Inr (Some ''@trigger.dev/core/v3/foo''))
   \<and> map_option (map_sum id (map_option fix_replaceText))
        (ImportDeclaration (Suc (Suc 0)) pairRepo importPair)
       = Some (Inr (Some (Some
           (''import { A } from '' @ [squote] @ ''@trigger.dev/core/v3/foo'' @ [squote] @ '';''
            @ [newline]
            @ ''import { B as C } from '' @ [squote] @ ''@trigger.dev/core/v3/foo''
            @ [squote] @ '';''))))"
proof -
  let ?triples = "[(''A'', ''A'', ''A''), (''B'', ''C'', ''B as C'')]"
  let ?res = "\<lambda>i::string. Some ''@trigger.dev/core/v3/foo''"
  have s: "source_value importPair = ''@trigger.dev/core/v3''"
    by (simp add: importPair_def)
  have h1: "source_value importPair \<in> set blockedImportSources"
    by (simp add: importPair_def blockedImportSources_def)
  have h2: "specifiers importPair = map (\<lambda>(i, l, t). ImportSpecifier i l t) ?triples"
    by (simp add: importPair_def)
  have a: "resolveSpecifier (Suc (Suc 0)) pairRepo (source_value importPair) ''A''
       = Some (Inr (Some ''@trigger.dev/core/v3/foo''))"
    and b: "resolveSpecifier (Suc (Suc 0)) pairRepo (source_value importPair) ''B''
       = Some (Inr (Some ''@trigger.dev/core/v3/foo''))"
    unfolding s by (simp_all add: pairRepo_resolve)
  have h3: "\<forall>(i, l, t)\<in>set ?triples.
      resolveSpecifier (Suc (Suc 0)) pairRepo (source_value importPair) i = Some (Inr (?res i))"
    using a b by simp
  have h4: "\<exists>(i, l, t)\<in>set ?triples. truthy (?res i)"
    by (auto simp: truthy_def)
  from ImportDeclaration_one_import_per_specifier [OF h1 h2 h3 h4]
  obtain r where r: "ImportDeclaration (Suc (Suc 0)) pairRepo importPair = Some (Inr (Some r))"
    and t: "fix_replaceText r =
       Some (''import { A } from '' @ [squote] @ ''@trigger.dev/core/v3/foo'' @ [squote] @ '';''
            @ [newline]
            @ ''import { B as C } from '' @ [squote] @ ''@trigger.dev/core/v3/foo''
            @ [squote] @ '';'')"
    by (auto simp: truthy_def)
  from r t have "map_option (map_sum id (map_option fix_replaceText))
        (ImportDeclaration (Suc (Suc 0)) pairRepo importPair)
       = Some (Inr (Some (Some
           (''import { A } from '' @ [squote] @ ''@trigger.dev/core/v3/foo'' @ [squote] @ '';''
            @ [newline]
            @ ''import { B as C } from '' @ [squote] @ ''@trigger.dev/core/v3/foo''
            @ [squote] @ '';''))))"
    by simp
  with h1 h2 a b show ?thesis by (simp only: simp_thms)
qed

end
